theory Spec2Isabelle
  imports Complex_Main
begin

section \<open>Parabolic motion (refnx/reduce/parabolic\_motion.py)\<close>

text \<open>
  The module computes with numpy float64 scalars. The model keeps the special
  values of IEEE 754 and takes every finite float to be the real number it
  stands for: rounding and overflow are left out, zero has no sign (the only
  zero divisor the module can produce is a square, so it is +0), and the
  infinities and NaN follow the IEEE rules for each operation.
\<close>

subsection \<open>float64 values\<close>

datatype fl = Fin real | PInf | NInf | NaN

datatype py_error =
    IndexError      \<comment> \<open>polyval on an empty coefficient array\<close>
  | ValueError      \<comment> \<open>as\_series on an empty array, max of an empty array\<close>
  | LinAlgError     \<comment> \<open>eigvals on a matrix holding inf or NaN\<close>
  | RuntimeError    \<comment> \<open>newton: failed to converge\<close>
  | NotModelled     \<comment> \<open>polyroots of degree three and more, which the module never asks for\<close>

fun is_nan :: "fl \<Rightarrow> bool" where
  "is_nan NaN = True"
| "is_nan _ = False"

text \<open>The sign of a value, as a real: -1, 0 or 1.\<close>

fun fsign :: "fl \<Rightarrow> real" where
  "fsign (Fin a) = sgn a"
| "fsign PInf = 1"
| "fsign NInf = - 1"
| "fsign NaN = 0"

definition inf_of_sign :: "real \<Rightarrow> fl" where
  "inf_of_sign s = (if 0 < s then PInf else if s < 0 then NInf else NaN)"

fun fneg :: "fl \<Rightarrow> fl" where
  "fneg (Fin a) = Fin (- a)"
| "fneg PInf = NInf"
| "fneg NInf = PInf"
| "fneg NaN = NaN"

fun fadd :: "fl \<Rightarrow> fl \<Rightarrow> fl" where
  "fadd (Fin a) (Fin b) = Fin (a + b)"
| "fadd NaN _ = NaN"
| "fadd _ NaN = NaN"
| "fadd PInf NInf = NaN"
| "fadd NInf PInf = NaN"
| "fadd PInf _ = PInf"
| "fadd _ PInf = PInf"
| "fadd NInf _ = NInf"
| "fadd _ NInf = NInf"

definition fsub :: "fl \<Rightarrow> fl \<Rightarrow> fl" where
  "fsub x y = fadd x (fneg y)"

fun fmul :: "fl \<Rightarrow> fl \<Rightarrow> fl" where
  "fmul (Fin a) (Fin b) = Fin (a * b)"
| "fmul NaN _ = NaN"
| "fmul _ NaN = NaN"
| "fmul x y = inf_of_sign (fsign x * fsign y)"

text \<open>
  Division: a finite value over zero is an infinity of the dividend's sign
  (the divisor is +0), 0/0 is NaN; a finite value over an infinity is 0;
  inf/inf is NaN.
\<close>

fun fdiv :: "fl \<Rightarrow> fl \<Rightarrow> fl" where
  "fdiv (Fin a) (Fin b) = (if b = 0 then inf_of_sign (sgn a) else Fin (a / b))"
| "fdiv NaN _ = NaN"
| "fdiv _ NaN = NaN"
| "fdiv (Fin a) _ = Fin 0"
| "fdiv x (Fin b) = inf_of_sign (fsign x * (if 0 \<le> b then 1 else - 1))"
| "fdiv _ _ = NaN"

text \<open>\<open>x ** 2\<close> and \<open>x ** 2.\<close> on a float: the square.\<close>

definition fsquare :: "fl \<Rightarrow> fl" where
  "fsquare x = fmul x x"

fun fsqrt :: "fl \<Rightarrow> fl" where
  "fsqrt (Fin a) = (if a < 0 then NaN else Fin (sqrt a))"
| "fsqrt PInf = PInf"
| "fsqrt _ = NaN"

text \<open>Comparisons: every comparison with NaN is false.\<close>

fun fless :: "fl \<Rightarrow> fl \<Rightarrow> bool" where
  "fless (Fin a) (Fin b) = (a < b)"
| "fless NaN _ = False"
| "fless _ NaN = False"
| "fless NInf NInf = False"
| "fless NInf _ = True"
| "fless _ NInf = False"
| "fless PInf _ = False"
| "fless _ PInf = True"

definition feq :: "fl \<Rightarrow> fl \<Rightarrow> bool" where
  "feq x y = (\<not> is_nan x \<and> \<not> is_nan y \<and> x = y)"

definition fle :: "fl \<Rightarrow> fl \<Rightarrow> bool" where
  "fle x y = (fless x y \<or> feq x y)"

fun fabs :: "fl \<Rightarrow> fl" where
  "fabs (Fin a) = Fin \<bar>a\<bar>"
| "fabs NaN = NaN"
| "fabs _ = PInf"

subsection \<open>numpy's elementary functions\<close>

text \<open>
  \<open>np.radians\<close> and \<open>np.degrees\<close> scale by pi/180 and 180/pi. The tangent of
  the model is the exact one: it has no value where the cosine is zero
  (float64 has no such argument), and none at an infinity.
\<close>

definition np_radians :: "fl \<Rightarrow> fl" where
  "np_radians x = fmul x (Fin (pi / 180))"

definition np_degrees :: "fl \<Rightarrow> fl" where
  "np_degrees x = fmul x (Fin (180 / pi))"

fun np_tan :: "fl \<Rightarrow> fl" where
  "np_tan (Fin a) = (if cos a = 0 then NaN else Fin (tan a))"
| "np_tan _ = NaN"

fun np_cos :: "fl \<Rightarrow> fl" where
  "np_cos (Fin a) = Fin (cos a)"
| "np_cos _ = NaN"

fun np_arctan :: "fl \<Rightarrow> fl" where
  "np_arctan (Fin a) = Fin (arctan a)"
| "np_arctan PInf = Fin (pi / 2)"
| "np_arctan NInf = Fin (- (pi / 2))"
| "np_arctan NaN = NaN"

text \<open>\<open>scipy.constants.g\<close>, the standard acceleration of gravity.\<close>

definition g :: real where
  "g = 980665 / 100000"

subsection \<open>numpy.polynomial.polynomial\<close>

text \<open>
  \<open>polyval x c\<close>: Horner's scheme from the highest coefficient down,
  \<open>c0 = c[-1] + x*0\<close>, then \<open>c0 = c[-i] + c0*x\<close>. The read of \<open>c[-1]\<close> raises
  on an empty array.
\<close>

fun horner :: "fl \<Rightarrow> fl \<Rightarrow> fl list \<Rightarrow> fl" where
  "horner x c0 [] = c0"
| "horner x c0 (ci # cs) = horner x (fadd ci (fmul c0 x)) cs"

definition polyval :: "fl \<Rightarrow> fl list \<Rightarrow> py_error + fl" where
  "polyval x c =
     (case rev c of
        [] \<Rightarrow> Inl IndexError
      | cn # cs \<Rightarrow> Inr (horner x (fadd cn (fmul x (Fin 0))) cs))"

text \<open>
  \<open>polyder c\<close> (one derivative, scale 1): \<open>der[j-1] = j*c[j]\<close>; an array of at
  most one coefficient gives \<open>c[:1]*0\<close>.
\<close>

definition polyder :: "fl list \<Rightarrow> fl list" where
  "polyder c =
     (if length c \<le> 1 then map (\<lambda>v. fmul v (Fin 0)) (take 1 c)
      else map (\<lambda>j. fmul (Fin (real j)) (c ! j)) [1 ..< length c])"

subsection \<open>The parabola and its evaluation\<close>

definition parabola_eqn :: "fl \<Rightarrow> fl \<Rightarrow> fl list" where
  "parabola_eqn initial_trajectory speed =
     (let traj_rad = np_radians initial_trajectory
      in [Fin 0, np_tan traj_rad,
          fdiv (fdiv (fneg (Fin g)) (Fin 2)) (fsquare (fmul speed (np_cos traj_rad)))])"

definition y_deflection :: "fl \<Rightarrow> fl \<Rightarrow> fl \<Rightarrow> py_error + fl" where
  "y_deflection initial_trajectory flight_length speed =
     (let eqn = parabola_eqn initial_trajectory speed
      in polyval flight_length eqn)"

definition elevation :: "fl \<Rightarrow> fl \<Rightarrow> fl \<Rightarrow> py_error + fl" where
  "elevation initial_trajectory flight_length speed =
     (let eqn = parabola_eqn initial_trajectory speed;
          dydx = polyder eqn
      in case polyval flight_length dydx of
           Inl e \<Rightarrow> Inl e
         | Inr v \<Rightarrow> Inr (np_degrees (np_arctan v)))"

subsection \<open>Complex values and numpy's promotion\<close>

text \<open>
  A complex128 value is a complex number, or one with an infinite or NaN part;
  the model does not tell the latter apart. A numpy scalar is a float64 or a
  complex128, an array of roots holds one kind only, and an operation on a
  float and a complex value promotes the float.
\<close>

datatype cfl = CFin complex | CNonFin

datatype npnum = Flt fl | Cpx cfl

datatype ndarray = FloatArray "fl list" | ComplexArray "cfl list"

fun to_complex :: "fl \<Rightarrow> cfl" where
  "to_complex (Fin a) = CFin (complex_of_real a)"
| "to_complex _ = CNonFin"

fun cadd :: "cfl \<Rightarrow> cfl \<Rightarrow> cfl" where
  "cadd (CFin z) (CFin w) = CFin (z + w)"
| "cadd _ _ = CNonFin"

fun csub :: "cfl \<Rightarrow> cfl \<Rightarrow> cfl" where
  "csub (CFin z) (CFin w) = CFin (z - w)"
| "csub _ _ = CNonFin"

fun cmul :: "cfl \<Rightarrow> cfl \<Rightarrow> cfl" where
  "cmul (CFin z) (CFin w) = CFin (z * w)"
| "cmul _ _ = CNonFin"

fun csqrt_fl :: "cfl \<Rightarrow> cfl" where
  "csqrt_fl (CFin z) = CFin (csqrt z)"
| "csqrt_fl CNonFin = CNonFin"

fun nadd :: "npnum \<Rightarrow> npnum \<Rightarrow> npnum" where
  "nadd (Flt x) (Flt y) = Flt (fadd x y)"
| "nadd (Flt x) (Cpx w) = Cpx (cadd (to_complex x) w)"
| "nadd (Cpx z) (Flt y) = Cpx (cadd z (to_complex y))"
| "nadd (Cpx z) (Cpx w) = Cpx (cadd z w)"

fun nsub :: "npnum \<Rightarrow> npnum \<Rightarrow> npnum" where
  "nsub (Flt x) (Flt y) = Flt (fsub x y)"
| "nsub (Flt x) (Cpx w) = Cpx (csub (to_complex x) w)"
| "nsub (Cpx z) (Flt y) = Cpx (csub z (to_complex y))"
| "nsub (Cpx z) (Cpx w) = Cpx (csub z w)"

fun nmul :: "npnum \<Rightarrow> npnum \<Rightarrow> npnum" where
  "nmul (Flt x) (Flt y) = Flt (fmul x y)"
| "nmul (Flt x) (Cpx w) = Cpx (cmul (to_complex x) w)"
| "nmul (Cpx z) (Flt y) = Cpx (cmul z (to_complex y))"
| "nmul (Cpx z) (Cpx w) = Cpx (cmul z w)"

fun nsquare :: "npnum \<Rightarrow> npnum" where
  "nsquare (Flt x) = Flt (fsquare x)"
| "nsquare (Cpx z) = Cpx (cmul z z)"

text \<open>\<open>np.sqrt\<close>: NaN on a negative float, the principal root on a complex value.\<close>

fun np_sqrt :: "npnum \<Rightarrow> npnum" where
  "np_sqrt (Flt x) = Flt (fsqrt x)"
| "np_sqrt (Cpx z) = Cpx (csqrt_fl z)"

text \<open>
  \<open>np.max\<close>: raises on an empty array, returns NaN when the array holds one,
  and orders complex values by real part, then imaginary part.
\<close>

definition fmax :: "fl \<Rightarrow> fl \<Rightarrow> fl" where
  "fmax x y = (if is_nan x \<or> is_nan y then NaN else if fless x y then y else x)"

fun cmax :: "cfl \<Rightarrow> cfl \<Rightarrow> cfl" where
  "cmax (CFin z) (CFin w) =
     (if Re z < Re w \<or> (Re z = Re w \<and> Im z < Im w) then CFin w else CFin z)"
| "cmax _ _ = CNonFin"

fun np_max :: "ndarray \<Rightarrow> py_error + npnum" where
  "np_max (FloatArray []) = Inl ValueError"
| "np_max (FloatArray (x # xs)) = Inr (Flt (foldl fmax x xs))"
| "np_max (ComplexArray []) = Inl ValueError"
| "np_max (ComplexArray (z # zs)) = Inr (Cpx (foldl cmax z zs))"

subsection \<open>Roots of a polynomial\<close>

text \<open>
  \<open>trimseq\<close> removes the trailing zero coefficients and keeps the first
  coefficient of an all-zero array (NaN is not zero).
\<close>

definition trimseq :: "fl list \<Rightarrow> fl list" where
  "trimseq seq =
     (if seq = [] \<or> last seq \<noteq> Fin 0 then seq
      else case dropWhile (\<lambda>v. v = Fin 0) (rev seq) of
             [] \<Rightarrow> take 1 seq
           | v # vs \<Rightarrow> rev (v # vs))"

text \<open>
  The companion matrix of a quadratic \<open>[c0, c1, c2]\<close>: ones below the diagonal,
  and the last column is \<open>0 - c[:-1]/c[-1]\<close>. The matrix is written by rows.
\<close>

type_synonym mat2 = "(fl \<times> fl) \<times> (fl \<times> fl)"

definition polycompanion2 :: "fl \<Rightarrow> fl \<Rightarrow> fl \<Rightarrow> mat2" where
  "polycompanion2 c0 c1 c2 =
     ((Fin 0, fsub (Fin 0) (fdiv c0 c2)), (Fin 1, fsub (Fin 0) (fdiv c1 c2)))"

text \<open>
  \<open>numpy.linalg.eigvals\<close> on a 2x2 real matrix, followed by the \<open>sort\<close> of
  \<open>polyroots\<close>: it raises when an entry is not finite; the eigenvalues are the
  roots of the characteristic polynomial, a float array when both are real and
  a complex array otherwise. They are listed in sorted order.
\<close>

fun eigvals2_sorted :: "mat2 \<Rightarrow> py_error + ndarray" where
  "eigvals2_sorted ((Fin a, Fin b), (Fin c, Fin d)) =
     (let tr = a + d; det = a * d - b * c; disc = tr\<^sup>2 - 4 * det
      in if 0 \<le> disc
         then Inr (FloatArray [Fin ((tr - sqrt disc) / 2), Fin ((tr + sqrt disc) / 2)])
         else Inr (ComplexArray [CFin (Complex (tr / 2) (- (sqrt (- disc) / 2))),
                                 CFin (Complex (tr / 2) (sqrt (- disc) / 2))]))"
| "eigvals2_sorted _ = Inl LinAlgError"

definition polyroots :: "fl list \<Rightarrow> py_error + ndarray" where
  "polyroots c =
     (if c = [] then Inl ValueError
      else let c' = trimseq c
           in if length c' < 2 then Inr (FloatArray [])
              else if length c' = 2
                then Inr (FloatArray [fdiv (fneg (c' ! 0)) (c' ! 1)])
              else if length c' = 3
                then eigvals2_sorted (polycompanion2 (c' ! 0) (c' ! 1) (c' ! 2))
              else Inl NotModelled)"

subsection \<open>Intersection of the parabola with a line\<close>

definition parabola_line_intersection_point ::
  "fl \<Rightarrow> fl \<Rightarrow> fl \<Rightarrow> fl \<Rightarrow> fl \<Rightarrow> py_error + (npnum \<times> npnum \<times> npnum)" where
  "parabola_line_intersection_point initial_trajectory speed theta flight_length omega =
     (let omega_rad = np_radians omega;
          theta_rad = np_radians theta;
          a1 = fmul flight_length (fsub (np_tan theta_rad) (np_tan omega_rad));
          b1 = np_tan omega_rad;
          eqn = parabola_eqn initial_trajectory speed
      in case polyroots [fsub (eqn ! 0) a1, fsub (eqn ! 1) b1, eqn ! 2] of
           Inl e \<Rightarrow> Inl e
         | Inr roots \<Rightarrow>
             (case np_max roots of
                Inl e \<Rightarrow> Inl e
              | Inr intersection_x \<Rightarrow>
                  (let intersection_y = nadd (Flt a1) (nmul intersection_x (Flt b1));
                       distance =
                         nadd (nsquare (nsub intersection_x (Flt flight_length)))
                              (nsquare (nsub intersection_y
                                          (Flt (fmul flight_length (np_tan theta_rad)))))
                   in Inr (intersection_x, intersection_y, np_sqrt distance))))"

subsection \<open>The inverse problem\<close>

text \<open>
  \<open>scipy.optimize.newton\<close> is called with a scalar start value and no
  derivative: that is the secant branch of the library, with its defaults
  \<open>tol = 1.48e-8\<close>, \<open>maxiter = 50\<close>, \<open>rtol = 0\<close> and \<open>disp = True\<close>. The
  second point is \<open>x0 * (1 + 1e-4) \<plusminus> 1e-4\<close>; the two points are swapped
  when the second has the smaller residual. Each round raises when the two
  residuals are equal at different points, and returns the secant point when
  \<open>np.isclose\<close> finds it within \<open>tol\<close> of the last point; after \<open>maxiter\<close>
  rounds the function raises \<open>RuntimeError\<close> (failed to converge).
\<close>

definition isclose :: "fl \<Rightarrow> fl \<Rightarrow> real \<Rightarrow> bool" where
  "isclose a b atol =
     (case (a, b) of
        (Fin x, Fin y) \<Rightarrow> \<bar>x - y\<bar> \<le> atol
      | _ \<Rightarrow> feq a b)"

fun secant_loop ::
  "(fl \<Rightarrow> py_error + fl) \<Rightarrow> real \<Rightarrow> nat \<Rightarrow> fl \<Rightarrow> fl \<Rightarrow> fl \<Rightarrow> fl \<Rightarrow> py_error + fl" where
  "secant_loop func tol 0 p0 q0 p1 q1 = Inl RuntimeError"
| "secant_loop func tol (Suc n) p0 q0 p1 q1 =
     (if feq q1 q0
      then (if \<not> feq p1 p0 then Inl RuntimeError
            else Inr (fdiv (fadd p1 p0) (Fin 2)))
      else
        (let p = (if fless (fabs q0) (fabs q1)
                  then fdiv (fadd (fmul (fdiv (fneg q0) q1) p1) p0)
                            (fsub (Fin 1) (fdiv q0 q1))
                  else fdiv (fadd (fmul (fdiv (fneg q1) q0) p0) p1)
                            (fsub (Fin 1) (fdiv q1 q0)))
         in if isclose p p1 tol then Inr p
            else case func p of
                   Inl e \<Rightarrow> Inl e
                 | Inr q \<Rightarrow> secant_loop func tol n p1 q1 p q))"

definition scipy_newton :: "(fl \<Rightarrow> py_error + fl) \<Rightarrow> fl \<Rightarrow> py_error + fl" where
  "scipy_newton func x0 =
     (let eps = Fin (1 / 10 ^ 4);
          p0 = x0;
          p1' = fmul x0 (fadd (Fin 1) eps);
          p1 = fadd p1' (if fle (Fin 0) p1' then eps else fneg eps)
      in case func p0 of
           Inl e \<Rightarrow> Inl e
         | Inr q0 \<Rightarrow>
             (case func p1 of
                Inl e \<Rightarrow> Inl e
              | Inr q1 \<Rightarrow>
                  if fless (fabs q1) (fabs q0)
                  then secant_loop func (148 / 10 ^ 10) 50 p1 q1 p0 q0
                  else secant_loop func (148 / 10 ^ 10) 50 p0 q0 p1 q1))"

text \<open>
  \<open>find_trajectory\<close> hands the residual \<open>traj\<close> to the root finder with the
  start value 0 and returns what it returns. The root finder is a parameter of
  the model; \<open>scipy_newton\<close> is the one the module imports.
\<close>

definition traj :: "fl \<Rightarrow> fl \<Rightarrow> fl \<Rightarrow> fl \<Rightarrow> py_error + fl" where
  "traj vertical_deflection_vertex flight_length speed trajectory =
     (case y_deflection trajectory flight_length speed of
        Inl e \<Rightarrow> Inl e
      | Inr y \<Rightarrow> Inr (fsub vertical_deflection_vertex y))"

definition find_trajectory ::
  "((fl \<Rightarrow> py_error + fl) \<Rightarrow> fl \<Rightarrow> py_error + fl) \<Rightarrow> fl \<Rightarrow> fl \<Rightarrow> fl \<Rightarrow> py_error + fl" where
  "find_trajectory newton theta flight_length speed =
     (let theta_rad = np_radians theta;
          vertical_deflection_vertex = fmul (np_tan theta_rad) flight_length
      in newton (traj vertical_deflection_vertex flight_length speed) (Fin 0))"

section \<open>Properties\<close>

abbreviation radians :: "real \<Rightarrow> real" where
  "radians d \<equiv> d * pi / 180"

subsection \<open>Auxiliary facts\<close>

lemma g_pos: "0 < g"
  by (simp add: g_def)

lemma fmul_fneg_left: "fmul (fneg x) y = fneg (fmul x y)"
  by (cases x; cases y) (auto simp: inf_of_sign_def sgn_real_def)

lemma fsquare_fneg: "fsquare (fneg x) = fsquare x"
  by (cases x) (auto simp: fsquare_def inf_of_sign_def)

lemma parabola_eqn_neg_speed: "parabola_eqn it (fneg speed) = parabola_eqn it speed"
  by (simp add: parabola_eqn_def fmul_fneg_left fsquare_fneg)

lemma parabola_eqn_fin:
  assumes "speed * cos (radians it) \<noteq> 0"
  shows "parabola_eqn (Fin it) (Fin speed) =
     [Fin 0, Fin (tan (radians it)),
      Fin (- g / (2 * (speed * cos (radians it))\<^sup>2))]"
  using assms
  by (simp add: parabola_eqn_def np_radians_def fsquare_def power2_eq_square)

lemma y_deflection_fin:
  assumes "speed * cos (radians it) \<noteq> 0"
  shows "y_deflection (Fin it) (Fin x) (Fin speed) =
     Inr (Fin (tan (radians it) * x - g / (2 * (speed * cos (radians it))\<^sup>2) * x\<^sup>2))"
  using assms
  by (simp add: y_deflection_def parabola_eqn_fin polyval_def power2_eq_square algebra_simps)






























subsection \<open>Convergence of the secant iteration\<close>

text \<open>
  One round of the secant iteration on finite values computes the secant point
  \<open>(p0 q1 - p1 q0) / (q1 - q0)\<close>. Where the residual falls with a slope between
  \<open>m\<close> and \<open>M\<close>, \<open>2 M \<le> 3 m\<close>, the secant point is at most half as far from the
  root as the last point, so the iteration stops within its budget, and the
  point it returns is within \<open>tol\<close> of the root.
\<close>

lemma secant_point_left:
  fixes p0 p1 q0 q1 :: real
  assumes "q0 \<noteq> q1" "q1 \<noteq> 0"
  shows "(- q0 / q1 * p1 + p0) / (1 - q0 / q1) = (p0 * q1 - p1 * q0) / (q1 - q0)"
proof -
  have "(- q0 / q1 * p1 + p0) = (p0 * q1 - p1 * q0) / q1"
    using assms(2) by (simp add: field_simps)
  moreover have "1 - q0 / q1 = (q1 - q0) / q1"
    using assms(2) by (simp add: field_simps)
  ultimately show ?thesis using assms by simp
qed

lemma secant_point_right:
  fixes p0 p1 q0 q1 :: real
  assumes "q0 \<noteq> q1" "q0 \<noteq> 0"
  shows "(- q1 / q0 * p0 + p1) / (1 - q1 / q0) = (p0 * q1 - p1 * q0) / (q1 - q0)"
proof -
  have "(- q1 / q0 * p0 + p1) = (p1 * q0 - p0 * q1) / q0"
    using assms(2) by (simp add: field_simps)
  moreover have "1 - q1 / q0 = (q0 - q1) / q0"
    using assms(2) by (simp add: field_simps)
  moreover have "(p1 * q0 - p0 * q1) / (q0 - q1) = (p0 * q1 - p1 * q0) / (q1 - q0)"
    by (metis minus_diff_eq minus_divide_divide)
  ultimately show ?thesis using assms by simp
qed

lemma secant_round_fin:
  assumes ne: "q0 \<noteq> q1"
  shows "secant_loop func tol (Suc n) (Fin p0) (Fin q0) (Fin p1) (Fin q1) =
     (let p = (p0 * q1 - p1 * q0) / (q1 - q0)
      in if \<bar>p - p1\<bar> \<le> tol then Inr (Fin p)
         else case func (Fin p) of
                Inl e \<Rightarrow> Inl e
              | Inr q \<Rightarrow> secant_loop func tol n (Fin p1) (Fin q1) (Fin p) q)"
proof (cases "\<bar>q0\<bar> < \<bar>q1\<bar>")
  case True
  then have q1: "q1 \<noteq> 0" by auto
  have d: "1 - q0 / q1 \<noteq> 0" using ne q1 by (simp add: field_simps)
  show ?thesis
    using True ne q1 d secant_point_left [OF ne q1, of p1 p0]
    by (simp add: feq_def fsub_def isclose_def Let_def)
next
  case False
  then have q0: "q0 \<noteq> 0" using ne by auto
  have d: "1 - q1 / q0 \<noteq> 0" using ne q0 by (simp add: field_simps)
  show ?thesis
    using False ne q0 d secant_point_right [OF ne q0, of p0 p1]
    by (simp add: feq_def fsub_def isclose_def Let_def)
qed

lemma slope_bounds:
  fixes F :: "real \<Rightarrow> real"
  assumes dd: "\<And>u v. \<bar>u - ts\<bar> \<le> R \<Longrightarrow> \<bar>v - ts\<bar> \<le> R \<Longrightarrow> u < v \<Longrightarrow>
                 m * (v - u) \<le> F u - F v \<and> F u - F v \<le> M * (v - u)"
    and u: "\<bar>u - ts\<bar> \<le> R" and v: "\<bar>v - ts\<bar> \<le> R" and ne: "u \<noteq> v"
  shows "m \<le> (F u - F v) / (v - u) \<and> (F u - F v) / (v - u) \<le> M"
proof (cases "u < v")
  case True
  then have pos: "0 < v - u" by simp
  from dd [OF u v True] show ?thesis
    using pos by (simp add: field_simps)
next
  case False
  then have lt: "v < u" using ne by simp
  then have pos: "0 < u - v" by simp
  have eq: "(F u - F v) / (v - u) = (F v - F u) / (u - v)"
    by (metis minus_diff_eq minus_divide_divide)
  from dd [OF v u lt] show ?thesis
    unfolding eq using pos by (simp add: field_simps)
qed

lemma secant_offset:
  fixes p0 p1 q0 q1 d :: real
  assumes q: "q0 - q1 = d * (p1 - p0)" and d: "d \<noteq> 0" and p: "p1 \<noteq> p0"
  shows "(p0 * q1 - p1 * q0) / (q1 - q0) - p1 = q1 / d"
proof -
  have q0: "q0 = q1 + d * (p1 - p0)" using q by simp
  have den: "q1 - q0 = d * (p0 - p1)" using q by (simp add: algebra_simps)
  have num: "p0 * q1 - p1 * q0 - p1 * (q1 - q0) = q1 * (p0 - p1)"
    by (simp add: algebra_simps)
  have nz: "d * (p0 - p1) \<noteq> 0" using d p by simp
  have "(p0 * q1 - p1 * q0) / (q1 - q0) - p1 = (p0 * q1 - p1 * q0 - p1 * (q1 - q0)) / (q1 - q0)"
    using nz unfolding den by (simp add: diff_divide_distrib)
  also have "\<dots> = q1 * (p0 - p1) / (q1 - q0)"
    by (simp only: num)
  also have "\<dots> = q1 * (p0 - p1) / (d * (p0 - p1))"
    by (simp only: den)
  also have "\<dots> = q1 / d" using p by simp
  finally show ?thesis .
qed

lemma ratio_half:
  fixes e d d1 :: real
  assumes "0 < d" "\<bar>d - d1\<bar> \<le> d / 2"
  shows "\<bar>e + d1 * (- e) / d\<bar> \<le> \<bar>e\<bar> / 2"
proof -
  have "e + d1 * (- e) / d = e * ((d - d1) / d)"
    using assms(1) by (simp add: field_simps)
  then have "\<bar>e + d1 * (- e) / d\<bar> = \<bar>e * ((d - d1) / d)\<bar>"
    by (simp only:)
  also have "\<dots> = \<bar>e\<bar> * (\<bar>d - d1\<bar> / d)"
    using assms(1) by (simp add: abs_mult)
  finally have eq: "\<bar>e + d1 * (- e) / d\<bar> = \<bar>e\<bar> * (\<bar>d - d1\<bar> / d)" .
  have h: "\<bar>d - d1\<bar> / d \<le> 1 / 2"
    using assms by (simp add: field_simps)
  have "\<bar>e + d1 * (- e) / d\<bar> \<le> \<bar>e\<bar> * (1 / 2)"
    unfolding eq by (rule mult_left_mono [OF h abs_ge_zero])
  then show ?thesis by simp
qed

lemma secant_contracts:
  fixes F :: "real \<Rightarrow> real"
  assumes dd: "\<And>u v. \<bar>u - ts\<bar> \<le> R \<Longrightarrow> \<bar>v - ts\<bar> \<le> R \<Longrightarrow> u < v \<Longrightarrow>
                 m * (v - u) \<le> F u - F v \<and> F u - F v \<le> M * (v - u)"
    and root: "F ts = 0" and m: "0 < m" and mM: "2 * M \<le> 3 * m" and R: "0 \<le> R"
    and p0: "\<bar>p0 - ts\<bar> \<le> R" and p1: "\<bar>p1 - ts\<bar> \<le> R" and ne: "p0 \<noteq> p1"
  shows "F p0 \<noteq> F p1"
    and "\<bar>(p0 * F p1 - p1 * F p0) / (F p1 - F p0) - ts\<bar> \<le> \<bar>p1 - ts\<bar> / 2"
proof -
  define D where "D = (F p0 - F p1) / (p1 - p0)"
  define ps where "ps = (p0 * F p1 - p1 * F p0) / (F p1 - F p0)"
  have D: "m \<le> D" "D \<le> M"
    using slope_bounds [of ts R m F M, OF dd p0 p1 ne] by (simp_all add: D_def)
  have Dpos: "0 < D" using D(1) m by linarith
  have pne: "p1 \<noteq> p0" using ne by simp
  have qd: "F p0 - F p1 = D * (p1 - p0)" using pne by (simp add: D_def)
  show "F p0 \<noteq> F p1"
  proof
    assume "F p0 = F p1"
    then have "D * (p1 - p0) = 0" using qd by simp
    then show False using Dpos pne by simp
  qed
  have off: "ps - p1 = F p1 / D"
    unfolding ps_def using Dpos by (intro secant_offset [OF qd _ pne]) simp
  have "\<bar>ps - ts\<bar> \<le> \<bar>p1 - ts\<bar> / 2"
  proof (cases "p1 = ts")
    case True
    then have "ps - ts = 0" using off root by simp
    then show ?thesis by simp
  next
    case False
    define D1 where "D1 = (F p1 - F ts) / (ts - p1)"
    have ts: "\<bar>ts - ts\<bar> \<le> R" using R by simp
    have D1: "m \<le> D1" "D1 \<le> M"
      using slope_bounds [of ts R m F M, OF dd p1 ts False] by (simp_all add: D1_def)
    have "F p1 = D1 * (ts - p1)" using False root by (simp add: D1_def)
    then have q1: "F p1 = D1 * (- (p1 - ts))" by simp
    have "ps - ts = (p1 - ts) + F p1 / D" using off by simp
    then have eq: "ps - ts = (p1 - ts) + D1 * (- (p1 - ts)) / D"
      using q1 by simp
    have "\<bar>D - D1\<bar> \<le> M - m" using D D1 by linarith
    also have "\<dots> \<le> D / 2" using mM D(1) by linarith
    finally have "\<bar>D - D1\<bar> \<le> D / 2" .
    then show ?thesis unfolding eq by (rule ratio_half [OF Dpos])
  qed
  then show "\<bar>(p0 * F p1 - p1 * F p0) / (F p1 - F p0) - ts\<bar> \<le> \<bar>p1 - ts\<bar> / 2"
    by (simp add: ps_def)
qed

lemma abs_triangle_mid:
  fixes a b c :: real
  shows "\<bar>a - c\<bar> \<le> \<bar>b - a\<bar> + \<bar>b - c\<bar>"
  by (simp add: abs_if)

lemma stop_bound:
  fixes a b c tol :: real
  assumes "a \<le> b / 2" "c \<le> tol" "b \<le> c + a"
  shows "a \<le> tol"
  using assms by linarith

lemma stop_accuracy:
  fixes ps p1 ts tol :: real
  assumes "\<bar>ps - ts\<bar> \<le> \<bar>p1 - ts\<bar> / 2" "\<bar>ps - p1\<bar> \<le> tol"
  shows "\<bar>ps - ts\<bar> \<le> tol"
  by (rule stop_bound [OF assms abs_triangle_mid])

lemma must_stop:
  fixes ps p1 ts tol E :: real
  assumes "\<bar>ps - ts\<bar> \<le> \<bar>p1 - ts\<bar> / 2" "\<bar>p1 - ts\<bar> \<le> E" "3 * E \<le> tol * 2"
  shows "\<bar>ps - p1\<bar> \<le> tol"
proof -
  have "\<bar>ps - p1\<bar> \<le> \<bar>ts - ps\<bar> + \<bar>ts - p1\<bar>" by (rule abs_triangle_mid)
  then have "\<bar>ps - p1\<bar> \<le> \<bar>ps - ts\<bar> + \<bar>p1 - ts\<bar>" by (simp only: abs_minus_commute)
  moreover have "\<And>a b c. a \<le> b / 2 \<Longrightarrow> b \<le> E \<Longrightarrow> c \<le> a + b \<Longrightarrow> c \<le> tol"
    using assms(3) by linarith
  ultimately show ?thesis using assms(1,2) by blast
qed

lemma half_le_bound:
  fixes a b R :: real
  assumes "a \<le> b / 2" "b \<le> R" "0 \<le> b"
  shows "a \<le> R"
  using assms by linarith

lemma half_le_half:
  fixes a b E :: real
  assumes "a \<le> b / 2" "b \<le> E"
  shows "a \<le> E / 2"
  using assms by linarith

lemma secant_loop_converges:
  fixes F :: "real \<Rightarrow> real"
  assumes func: "\<And>t. \<bar>t - ts\<bar> \<le> R \<Longrightarrow> func (Fin t) = Inr (Fin (F t))"
    and dd: "\<And>u v. \<bar>u - ts\<bar> \<le> R \<Longrightarrow> \<bar>v - ts\<bar> \<le> R \<Longrightarrow> u < v \<Longrightarrow>
                 m * (v - u) \<le> F u - F v \<and> F u - F v \<le> M * (v - u)"
    and root: "F ts = 0" and m: "0 < m" and mM: "2 * M \<le> 3 * m"
    and tol: "0 < tol"
  shows "p0 \<noteq> p1 \<Longrightarrow> \<bar>p0 - ts\<bar> \<le> R \<Longrightarrow> \<bar>p1 - ts\<bar> \<le> E \<Longrightarrow> E \<le> R \<Longrightarrow>
         3 * E \<le> tol * 2 ^ Suc n \<Longrightarrow>
         \<exists>p. secant_loop func tol (Suc n) (Fin p0) (Fin (F p0)) (Fin p1) (Fin (F p1)) = Inr (Fin p)
             \<and> \<bar>p - ts\<bar> \<le> tol"
proof (induction n arbitrary: p0 p1 E)
  case 0
  define ps where "ps = (p0 * F p1 - p1 * F p0) / (F p1 - F p0)"
  have R: "0 \<le> R" by (rule order_trans [OF abs_ge_zero "0.prems"(2)])
  have p1R: "\<bar>p1 - ts\<bar> \<le> R" by (rule order_trans [OF "0.prems"(3,4)])
  note sc = secant_contracts [of ts R m F M, OF dd root m mM R "0.prems"(2) p1R "0.prems"(1)]
  have half: "\<bar>ps - ts\<bar> \<le> \<bar>p1 - ts\<bar> / 2" using sc(2) by (simp add: ps_def)
  have "3 * E \<le> tol * 2" using "0.prems"(5) by simp
  then have close: "\<bar>ps - p1\<bar> \<le> tol" by (rule must_stop [OF half "0.prems"(3)])
  have acc: "\<bar>ps - ts\<bar> \<le> tol" by (rule stop_accuracy [OF half close])
  have "secant_loop func tol (Suc 0) (Fin p0) (Fin (F p0)) (Fin p1) (Fin (F p1)) = Inr (Fin ps)"
    using close by (simp only: secant_round_fin [OF sc(1)] Let_def ps_def [symmetric] if_True)
  then show ?case using acc by blast
next
  case (Suc n)
  define ps where "ps = (p0 * F p1 - p1 * F p0) / (F p1 - F p0)"
  have R: "0 \<le> R" by (rule order_trans [OF abs_ge_zero Suc.prems(2)])
  have p1R: "\<bar>p1 - ts\<bar> \<le> R" by (rule order_trans [OF Suc.prems(3,4)])
  note sc = secant_contracts [of ts R m F M, OF dd root m mM R Suc.prems(2) p1R Suc.prems(1)]
  have half: "\<bar>ps - ts\<bar> \<le> \<bar>p1 - ts\<bar> / 2" using sc(2) by (simp add: ps_def)
  show ?case
  proof (cases "\<bar>ps - p1\<bar> \<le> tol")
    case True
    have acc: "\<bar>ps - ts\<bar> \<le> tol" by (rule stop_accuracy [OF half True])
    have "secant_loop func tol (Suc (Suc n)) (Fin p0) (Fin (F p0)) (Fin p1) (Fin (F p1)) = Inr (Fin ps)"
      using True by (simp only: secant_round_fin [OF sc(1)] Let_def ps_def [symmetric] if_True)
    then show ?thesis using acc by blast
  next
    case False
    have psR: "\<bar>ps - ts\<bar> \<le> R" by (rule half_le_bound [OF half p1R abs_ge_zero])
    have fps: "func (Fin ps) = Inr (Fin (F ps))" by (rule func [OF psR])
    have ne: "p1 \<noteq> ps" using False tol by auto
    have E': "\<bar>ps - ts\<bar> \<le> E / 2" by (rule half_le_half [OF half Suc.prems(3)])
    have "0 \<le> E" by (rule order_trans [OF abs_ge_zero Suc.prems(3)])
    then have E'R: "E / 2 \<le> R" using Suc.prems(4) by linarith
    have budget: "3 * (E / 2) \<le> tol * 2 ^ Suc n" using Suc.prems(5) by simp
    from Suc.IH [OF ne p1R E' E'R budget] obtain p where
      p: "secant_loop func tol (Suc n) (Fin p1) (Fin (F p1)) (Fin ps) (Fin (F ps)) = Inr (Fin p)"
      and acc: "\<bar>p - ts\<bar> \<le> tol" by blast
    have "secant_loop func tol (Suc (Suc n)) (Fin p0) (Fin (F p0)) (Fin p1) (Fin (F p1)) = Inr (Fin p)"
      using False p fps
      by (simp only: secant_round_fin [OF sc(1)] Let_def ps_def [symmetric] if_False sum.case)
    then show ?thesis using acc by blast
  qed
qed

lemma cos_lower_bound:
  fixes x :: real
  shows "1 - x\<^sup>2 / 2 \<le> cos x"
proof -
  have "\<bar>sin (x / 2)\<bar> \<le> \<bar>x / 2\<bar>" by (rule abs_sin_x_le_abs_x)
  then have "(sin (x / 2))\<^sup>2 \<le> (x / 2)\<^sup>2" by (rule abs_le_square_iff [THEN iffD1])
  then have "2 * (sin (x / 2))\<^sup>2 \<le> x\<^sup>2 / 2" by (simp add: power2_eq_square)
  moreover have "cos x = 1 - 2 * (sin (x / 2))\<^sup>2"
    using cos_double_sin [of "x / 2"] by simp
  ultimately show ?thesis by linarith
qed

lemma radians_small:
  assumes "\<bar>t\<bar> \<le> 11"
  shows "\<bar>radians t\<bar> \<le> 1 / 4"
proof -
  have "\<bar>radians t\<bar> = \<bar>t\<bar> * (pi / 180)" using pi_gt_zero by (simp add: abs_mult)
  also have "\<dots> \<le> 11 * (pi / 180)" using assms pi_gt_zero by (intro mult_right_mono) simp_all
  also have "\<dots> \<le> 11 * (4 / 180)" using pi_less_4 by simp
  also have "\<dots> \<le> 1 / 4" by simp
  finally show ?thesis .
qed

lemma cos_small_bounds:
  fixes x :: real
  assumes x: "\<bar>x\<bar> \<le> 1 / 4"
  shows "31 / 32 \<le> cos x"
proof -
  have "x\<^sup>2 = \<bar>x\<bar>\<^sup>2" by simp
  also have "\<dots> \<le> (1 / 4)\<^sup>2" using x by (intro power_mono) simp_all
  finally have "x\<^sup>2 \<le> 1 / 16" by (simp add: power2_eq_square)
  then show "31 / 32 \<le> cos x"
    using cos_lower_bound [of x] by linarith
qed

lemma tan_small_bound:
  fixes x :: real
  assumes x: "\<bar>x\<bar> \<le> 1 / 4"
  shows "\<bar>tan x\<bar> \<le> 8 / 31"
proof -
  have c: "31 / 32 \<le> cos x" by (rule cos_small_bounds [OF x])
  then have cpos: "0 < cos x" by linarith
  have s: "\<bar>sin x\<bar> \<le> 1 / 4"
    by (rule order_trans [OF abs_sin_x_le_abs_x x])
  have "\<bar>tan x\<bar> = \<bar>sin x\<bar> / cos x"
    using cpos by (simp add: tan_def)
  also have "\<dots> \<le> (1 / 4) / cos x"
    by (rule divide_right_mono [OF s]) (use cpos in simp)
  also have "\<dots> \<le> (1 / 4) / (31 / 32)"
    by (rule divide_left_mono [OF c]) (use cpos in simp_all)
  also have "\<dots> = 8 / 31" by simp
  finally show ?thesis .
qed

lemma sec2_small_bounds:
  fixes x :: real
  assumes x: "\<bar>x\<bar> \<le> 1 / 4"
  shows "1 \<le> 1 / (cos x)\<^sup>2" and "1 / (cos x)\<^sup>2 \<le> 1024 / 961"
proof -
  have c: "31 / 32 \<le> cos x" by (rule cos_small_bounds [OF x])
  have cpos: "0 < cos x" using c by linarith
  have lo: "(31 / 32)\<^sup>2 \<le> (cos x)\<^sup>2" using c by (intro power_mono) simp_all
  have hi: "(cos x)\<^sup>2 \<le> 1" by (simp add: power_le_one_iff abs_le_square_iff [symmetric] abs_square_le_1)
  have pos: "0 < (cos x)\<^sup>2" using cpos by simp
  show "1 \<le> 1 / (cos x)\<^sup>2" using hi pos by simp
  have "1 / (cos x)\<^sup>2 \<le> 1 / (31 / 32)\<^sup>2"
    by (rule divide_left_mono [OF lo]) (use pos in simp_all)
  also have "\<dots> = 1024 / 961" by (simp add: power2_eq_square)
  finally show "1 / (cos x)\<^sup>2 \<le> 1024 / 961" .
qed

lemma deflection_deriv:
  fixes fl s :: real
  assumes c: "cos (radians t) \<noteq> 0" and s: "s \<noteq> 0"
  shows "((\<lambda>t. tan (radians t) * fl - g / (2 * (s * cos (radians t))\<^sup>2) * fl\<^sup>2)
           has_real_derivative
         (pi / 180 * fl) * (1 / (cos (radians t))\<^sup>2 * (1 - g * fl / s\<^sup>2 * tan (radians t)))) (at t)"
  using c s
  apply -
  apply (rule derivative_eq_intros refl | simp)+
  apply (simp add: tan_def field_simps power2_eq_square power3_eq_cube power4_eq_xxxx)
  done

lemma gravity_term_small:
  fixes fl s :: real
  assumes s: "100 \<le> s" and fl: "0 \<le> fl" "fl \<le> 10"
  shows "0 \<le> g * fl / s\<^sup>2" and "g * fl / s\<^sup>2 \<le> 1 / 100"
proof -
  have s2: "100\<^sup>2 \<le> s\<^sup>2" using s by (intro power_mono) simp_all
  have "s \<noteq> 0" using s by simp
  then have pos: "0 < s\<^sup>2" by simp
  show "0 \<le> g * fl / s\<^sup>2" using g_pos fl(1) by simp
  have "g * fl \<le> g * 10" using g_pos fl(2) by simp
  also have "\<dots> \<le> 100" by (simp add: g_def)
  finally have num: "g * fl \<le> 100" .
  have "g * fl / s\<^sup>2 \<le> 100 / s\<^sup>2"
    by (rule divide_right_mono [OF num]) (use pos in simp)
  also have "\<dots> \<le> 100 / 100\<^sup>2"
    by (rule divide_left_mono [OF s2]) (use pos in simp_all)
  also have "\<dots> = 1 / 100" by simp
  finally show "g * fl / s\<^sup>2 \<le> 1 / 100" .
qed

lemma slope_factor_bounds:
  fixes S b T :: real
  assumes S: "1 \<le> S" "S \<le> 1024 / 961" and b: "0 \<le> b" "b \<le> 1 / 100"
    and T: "\<bar>T\<bar> \<le> 8 / 31"
  shows "99 / 100 \<le> S * (1 - b * T)" and "S * (1 - b * T) \<le> 11 / 10"
proof -
  have "\<bar>b * T\<bar> = b * \<bar>T\<bar>" using b(1) by (simp add: abs_mult)
  also have "\<dots> \<le> (1 / 100) * (8 / 31)"
    by (rule mult_mono [OF b(2) T]) (use b in simp_all)
  finally have bT: "\<bar>b * T\<bar> \<le> 8 / 3100" by simp
  define B where "B = 1 - b * T"
  have B: "3092 / 3100 \<le> B" "B \<le> 3108 / 3100"
    using bT unfolding B_def by linarith+
  have Bpos: "0 \<le> B" using B(1) by linarith
  have "1 * B \<le> S * B" by (rule mult_right_mono [OF S(1) Bpos])
  then have "B \<le> S * B" by simp
  then have "99 / 100 \<le> S * B" using B(1) by linarith
  then show "99 / 100 \<le> S * (1 - b * T)" by (simp only: B_def)
  have "S * B \<le> (1024 / 961) * (3108 / 3100)"
    by (rule mult_mono [OF S(2) B(2)]) (use Bpos in simp_all)
  also have "\<dots> \<le> 11 / 10" by simp
  finally show "S * (1 - b * T) \<le> 11 / 10" unfolding B_def .
qed

lemma deflection_slope:
  fixes fl s u v :: real
  assumes s: "100 \<le> s" and fl: "0 < fl" "fl \<le> 10"
    and u: "\<bar>u\<bar> \<le> 11" and v: "\<bar>v\<bar> \<le> 11" and uv: "u < v"
  defines "y \<equiv> \<lambda>t. tan (radians t) * fl - g / (2 * (s * cos (radians t))\<^sup>2) * fl\<^sup>2"
  shows "(pi / 180 * fl * (99 / 100)) * (v - u) \<le> y v - y u"
    and "y v - y u \<le> (pi / 180 * fl * (11 / 10)) * (v - u)"
proof -
  define D where "D = (\<lambda>t. (pi / 180 * fl) *
       (1 / (cos (radians t))\<^sup>2 * (1 - g * fl / s\<^sup>2 * tan (radians t))))"
  have sne: "s \<noteq> 0" using s by simp
  have der: "DERIV y t :> D t" if "u \<le> t" "t \<le> v" for t
  proof -
    have "\<bar>t\<bar> \<le> 11" using that u v by linarith
    then have "31 / 32 \<le> cos (radians t)"
      by (intro cos_small_bounds radians_small)
    then have "cos (radians t) \<noteq> 0" by linarith
    then show ?thesis unfolding y_def D_def by (rule deflection_deriv [OF _ sne])
  qed
  from MVT2 [OF uv der] obtain z where z: "u < z" "z < v" and eq: "y v - y u = (v - u) * D z"
    by blast
  have zb: "\<bar>z\<bar> \<le> 11" using z u v by linarith
  have x: "\<bar>radians z\<bar> \<le> 1 / 4" by (rule radians_small [OF zb])
  have fl0: "0 \<le> fl" using fl(1) by simp
  note sf = slope_factor_bounds [OF sec2_small_bounds [OF x]
      gravity_term_small [OF s fl0 fl(2)] tan_small_bound [OF x]]
  have k: "0 \<le> pi / 180 * fl" using fl(1) pi_gt_zero by simp
  have lo: "(pi / 180 * fl) * (99 / 100) \<le> D z"
    unfolding D_def by (rule mult_left_mono [OF sf(1) k])
  have hi: "D z \<le> (pi / 180 * fl) * (11 / 10)"
    unfolding D_def by (rule mult_left_mono [OF sf(2) k])
  have d: "0 \<le> v - u" using uv by simp
  have "(pi / 180 * fl * (99 / 100)) * (v - u) \<le> D z * (v - u)"
    by (rule mult_right_mono [OF lo d])
  then show "(pi / 180 * fl * (99 / 100)) * (v - u) \<le> y v - y u"
    unfolding eq by (simp only: mult.commute)
  have "D z * (v - u) \<le> (pi / 180 * fl * (11 / 10)) * (v - u)"
    by (rule mult_right_mono [OF hi d])
  then show "y v - y u \<le> (pi / 180 * fl * (11 / 10)) * (v - u)"
    unfolding eq by (simp only: mult.commute)
qed

lemma scipy_newton_converges:
  fixes F :: "real \<Rightarrow> real"
  assumes func: "\<And>t. \<bar>t - ts\<bar> \<le> R \<Longrightarrow> func (Fin t) = Inr (Fin (F t))"
    and dd: "\<And>u v. \<bar>u - ts\<bar> \<le> R \<Longrightarrow> \<bar>v - ts\<bar> \<le> R \<Longrightarrow> u < v \<Longrightarrow>
                 m * (v - u) \<le> F u - F v \<and> F u - F v \<le> M * (v - u)"
    and root: "F ts = 0" and m: "0 < m" and mM: "2 * M \<le> 3 * m"
    and a: "\<bar>0 - ts\<bar> \<le> R" and b: "\<bar>1 / 10 ^ 4 - ts\<bar> \<le> R"
    and budget: "3 * R \<le> 148 / 10 ^ 10 * 2 ^ 50"
  shows "\<exists>p. scipy_newton func (Fin 0) = Inr (Fin p) \<and> \<bar>p - ts\<bar> \<le> 148 / 10 ^ 10"
proof -
  let ?tol = "148 / 10 ^ 10 :: real"
  have tol: "0 < ?tol" by simp
  have ne: "(0::real) \<noteq> 1 / 10 ^ 4" by simp
  have fifty: "(50::nat) = Suc 49" by simp
  have budget': "3 * R \<le> ?tol * 2 ^ Suc 49" using budget by simp
  have f0: "func (Fin 0) = Inr (Fin (F 0))" by (rule func [OF a])
  have f1: "func (Fin (1 / 10 ^ 4)) = Inr (Fin (F (1 / 10 ^ 4)))" by (rule func [OF b])
  have unfold: "scipy_newton func (Fin 0) =
      (if \<bar>F (1 / 10 ^ 4)\<bar> < \<bar>F 0\<bar>
       then secant_loop func ?tol (Suc 49) (Fin (1 / 10 ^ 4)) (Fin (F (1 / 10 ^ 4))) (Fin 0) (Fin (F 0))
       else secant_loop func ?tol (Suc 49) (Fin 0) (Fin (F 0)) (Fin (1 / 10 ^ 4)) (Fin (F (1 / 10 ^ 4))))"
    unfolding scipy_newton_def Let_def fifty
    using f0 f1 by (simp add: fle_def feq_def del: secant_loop.simps)
  show ?thesis
  proof (cases "\<bar>F (1 / 10 ^ 4)\<bar> < \<bar>F 0\<bar>")
    case True
    from secant_loop_converges [of ts R func F m M ?tol "1 / 10 ^ 4" 0 R 49,
        OF func dd root m mM tol ne [symmetric] b a order_refl budget']
    show ?thesis unfolding unfold using True by (simp only: if_True)
  next
    case False
    from secant_loop_converges [of ts R func F m M ?tol 0 "1 / 10 ^ 4" R 49,
        OF func dd root m mM tol ne a b order_refl budget']
    show ?thesis unfolding unfold using False by (simp only: if_False)
  qed
qed

lemma ball_small:
  fixes t t0 :: real
  assumes "- 5 \<le> t0" "t0 \<le> 5" "\<bar>t - t0\<bar> \<le> 5 + 1 / 10 ^ 4"
  shows "\<bar>t\<bar> \<le> 11"
proof -
  have "\<bar>t\<bar> \<le> \<bar>t - t0\<bar> + \<bar>t0\<bar>" by (simp add: abs_if)
  moreover have "\<bar>t0\<bar> \<le> 5" using assms(1,2) by (simp add: abs_if)
  ultimately have "\<bar>t\<bar> \<le> 5 + 1 / 10 ^ 4 + 5" using assms(3) by linarith
  then show ?thesis by simp
qed

lemma find_trajectory_target:
  assumes fl: "fl \<noteq> 0"
  shows "find_trajectory newton (np_degrees (np_arctan (fdiv (Fin y) (Fin fl)))) (Fin fl) (Fin speed)
         = newton (traj (Fin y) (Fin fl) (Fin speed)) (Fin 0)"
proof -
  have "arctan (y / fl) * (180 / pi) * (pi / 180) = arctan (y / fl)" by simp
  then have rad: "np_radians (np_degrees (np_arctan (fdiv (Fin y) (Fin fl)))) = Fin (arctan (y / fl))"
    using fl by (simp add: np_radians_def np_degrees_def)
  have "tan (arctan (y / fl)) * fl = y" using fl by (simp add: tan_arctan)
  then have "fmul (np_tan (Fin (arctan (y / fl)))) (Fin fl) = Fin y"
    by simp
  then show ?thesis
    unfolding find_trajectory_def Let_def rad by simp
qed

subsection \<open>The coefficients of the parabola\<close>




subsection \<open>The concrete scenario\<close>

text \<open>
  C5, as stated: at speed 500, initial trajectory 0 and flight length 2 the
  deflection is \<open>-7.84532e-5\<close>; its magnitude is below \<open>1e-4\<close>, so it is not
  approximately \<open>1.57e-4\<close> (it is half of \<open>g (2/500)\<^sup>2\<close>).
\<close>

theorem y_deflection_scenario_not_157:
  "y_deflection (Fin 0) (Fin 2) (Fin 500) = Inr (Fin (- (784532 / 10 ^ 10)))
   \<and> (784532 / 10 ^ 10 :: real) < 1 / 10 ^ 4 \<and> (1 / 10 ^ 4 :: real) < 157 / 10 ^ 6"
  by (simp add: y_deflection_def parabola_eqn_def polyval_def np_radians_def fsquare_def
      g_def Let_def)

text \<open>
  C5, amended: at speed 500, initial trajectory 0 and flight length 2,
  \<open>y_deflection\<close> returns a negative number whose magnitude is
  \<open>g (flight_length / speed)\<^sup>2 / 2\<close>, which is \<open>7.84532e-5\<close>.
\<close>

theorem y_deflection_scenario:
  "y_deflection (Fin 0) (Fin 2) (Fin 500) = Inr (Fin (- (g * (2 / 500)\<^sup>2 / 2)))
   \<and> - (g * (2 / 500)\<^sup>2 / 2) < 0
   \<and> g * (2 / 500)\<^sup>2 / 2 = 784532 / 10 ^ 10"
  by (simp add: y_deflection_def parabola_eqn_def polyval_def np_radians_def fsquare_def
      g_def Let_def power2_eq_square)

subsection \<open>The sign of the speed\<close>

text \<open>
  C10: the speed enters the coefficients only through a square, so
  \<open>parabola_eqn\<close>, \<open>y_deflection\<close>, \<open>elevation\<close> and
  \<open>parabola_line_intersection_point\<close> return the same result for the speed
  \<open>-s\<close> as for \<open>s\<close>; a negative speed is not rejected.
\<close>

theorem speed_sign_invariance:
  "parabola_eqn (Fin it) (Fin (- s)) = parabola_eqn (Fin it) (Fin s)
   \<and> y_deflection (Fin it) (Fin x) (Fin (- s)) = y_deflection (Fin it) (Fin x) (Fin s)
   \<and> elevation (Fin it) (Fin x) (Fin (- s)) = elevation (Fin it) (Fin x) (Fin s)
   \<and> parabola_line_intersection_point (Fin it) (Fin (- s)) (Fin theta) (Fin x) (Fin omega)
       = parabola_line_intersection_point (Fin it) (Fin s) (Fin theta) (Fin x) (Fin omega)"
  using parabola_eqn_neg_speed [of "Fin it" "Fin s"]
  by (simp add: y_deflection_def elevation_def parabola_line_intersection_point_def)

subsection \<open>Elevation\<close>






subsection \<open>Intersection with a line\<close>







subsection \<open>The inverse problem\<close>

text \<open>
  C4: for a speed between 100 and 1000, a flight length between 0.1 and 10 and
  an initial trajectory between -5 and 5 degrees, let \<open>y\<close> be the deflection at
  the flight length and \<open>theta\<close> the arctangent of \<open>y / flight_length\<close> in
  degrees; then \<open>find_trajectory theta flight_length speed\<close>, with scipy's
  secant iteration as the root finder, returns a trajectory within \<open>1e-6\<close> of
  the initial one (within the solver's \<open>1.48e-8\<close>, in fact).
\<close>

theorem round_trip:
  fixes trajectory0 flight_length speed :: real
  assumes s: "100 \<le> speed" "speed \<le> 1000"
    and fl: "1 / 10 \<le> flight_length" "flight_length \<le> 10"
    and t0: "- 5 \<le> trajectory0" "trajectory0 \<le> 5"
  shows "\<exists>y t. y_deflection (Fin trajectory0) (Fin flight_length) (Fin speed) = Inr (Fin y)
           \<and> find_trajectory scipy_newton
                 (np_degrees (np_arctan (fdiv (Fin y) (Fin flight_length))))
                 (Fin flight_length) (Fin speed) = Inr (Fin t)
           \<and> \<bar>t - trajectory0\<bar> \<le> 1 / 10 ^ 6"
proof -
  define yd where "yd = (\<lambda>t. tan (radians t) * flight_length
       - g / (2 * (speed * cos (radians t))\<^sup>2) * flight_length\<^sup>2)"
  define R :: real where "R = 5 + 1 / 10 ^ 4"
  define F where "F = (\<lambda>t. yd trajectory0 - yd t)"
  define m where "m = pi / 180 * flight_length * (99 / 100)"
  define M where "M = pi / 180 * flight_length * (11 / 10)"
  have flpos: "0 < flight_length" using fl(1) by linarith
  have sne: "speed \<noteq> 0" using s(1) by linarith
  have nz: "speed * cos (radians t) \<noteq> 0" if "\<bar>t\<bar> \<le> 11" for t
  proof -
    have "31 / 32 \<le> cos (radians t)" by (intro cos_small_bounds radians_small that)
    then have "cos (radians t) \<noteq> 0" by linarith
    then show ?thesis using sne by simp
  qed
  have yval: "y_deflection (Fin t) (Fin flight_length) (Fin speed) = Inr (Fin (yd t))"
    if "\<bar>t\<bar> \<le> 11" for t
    unfolding yd_def by (rule y_deflection_fin [OF nz [OF that]])
  have t0b: "\<bar>trajectory0\<bar> \<le> 11" using t0 by (simp add: abs_if)
  have y0: "y_deflection (Fin trajectory0) (Fin flight_length) (Fin speed) = Inr (Fin (yd trajectory0))"
    by (rule yval [OF t0b])
  have func: "traj (Fin (yd trajectory0)) (Fin flight_length) (Fin speed) (Fin t) = Inr (Fin (F t))"
    if "\<bar>t - trajectory0\<bar> \<le> R" for t
  proof -
    have "\<bar>t\<bar> \<le> 11" using that unfolding R_def by (rule ball_small [OF t0])
    then show ?thesis by (simp add: traj_def yval fsub_def F_def)
  qed
  have dd: "m * (v - u) \<le> F u - F v \<and> F u - F v \<le> M * (v - u)"
    if "\<bar>u - trajectory0\<bar> \<le> R" "\<bar>v - trajectory0\<bar> \<le> R" "u < v" for u v
  proof -
    have u: "\<bar>u\<bar> \<le> 11" using that(1) unfolding R_def by (rule ball_small [OF t0])
    have v: "\<bar>v\<bar> \<le> 11" using that(2) unfolding R_def by (rule ball_small [OF t0])
    have "F u - F v = yd v - yd u" by (simp add: F_def)
    then show ?thesis
      unfolding m_def M_def yd_def
      using deflection_slope [OF s(1) flpos fl(2) u v that(3)] by simp
  qed
  have root: "F trajectory0 = 0" by (simp add: F_def)
  have mpos: "0 < m" using flpos pi_gt_zero by (simp add: m_def)
  have mM: "2 * M \<le> 3 * m"
  proof -
    have "0 \<le> pi / 180 * flight_length" using flpos pi_gt_zero by simp
    then show ?thesis unfolding m_def M_def by linarith
  qed
  have a: "\<bar>0 - trajectory0\<bar> \<le> R" using t0 by (simp add: R_def abs_if)
  have b: "\<bar>1 / 10 ^ 4 - trajectory0\<bar> \<le> R" using t0 by (simp add: R_def abs_if)
  have budget: "3 * R \<le> 148 / 10 ^ 10 * 2 ^ 50" by (simp add: R_def)
  from scipy_newton_converges [of trajectory0 R
      "traj (Fin (yd trajectory0)) (Fin flight_length) (Fin speed)" F m M,
      OF func dd root mpos mM a b budget]
  obtain p where p: "scipy_newton (traj (Fin (yd trajectory0)) (Fin flight_length) (Fin speed)) (Fin 0)
        = Inr (Fin p)" and acc: "\<bar>p - trajectory0\<bar> \<le> 148 / 10 ^ 10"
    by blast
  have flne: "flight_length \<noteq> 0" using flpos by simp
  have ft: "find_trajectory scipy_newton
                 (np_degrees (np_arctan (fdiv (Fin (yd trajectory0)) (Fin flight_length))))
                 (Fin flight_length) (Fin speed) = Inr (Fin p)"
    unfolding find_trajectory_target [OF flne] by (rule p)
  have "\<bar>p - trajectory0\<bar> \<le> 1 / 10 ^ 6" using acc by simp
  then show ?thesis using y0 ft by blast
qed

theorem round_trip_witness:
  "(100::real) \<le> 500 \<and> (500::real) \<le> 1000 \<and> (1::real) / 10 \<le> 2 \<and> (2::real) \<le> 10
   \<and> - 5 \<le> (1::real) \<and> (1::real) \<le> 5
   \<and> (\<exists>y t. y_deflection (Fin 1) (Fin 2) (Fin 500) = Inr (Fin y)
           \<and> find_trajectory scipy_newton (np_degrees (np_arctan (fdiv (Fin y) (Fin 2))))
                 (Fin 2) (Fin 500) = Inr (Fin t)
           \<and> \<bar>t - 1\<bar> \<le> 1 / 10 ^ 6)"
  using round_trip [of 500 2 1] by simp



end
